theory Spec2Isabelle
  imports Main "HOL-Library.Log_Nat"
begin

section \<open>Python values used by the tracker pipeline\<close>

subsection \<open>Text\<close>

text \<open>
  A Python \<open>str\<close> is a sequence of Unicode code points, and slicing, \<open>len\<close> and
  \<open>strip\<close> count code points. Text is therefore a list of code points (natural
  numbers); \<open>str\<close> turns an ASCII literal into such a list. The rupee sign of the price
  texts is the code point 8377 (U+20B9).
\<close>

type_synonym pystr = "nat list"

definition str :: "string \<Rightarrow> pystr" where
  "str cs = map of_char cs"

text \<open>
  Two library operations read the Unicode tables of the interpreter, which differ between
  its versions and are no part of the repository; they are parameters of the model.
  \<open>decimal c\<close> is the value of the code point \<open>c\<close> as a decimal digit, if it is one: the
  digit class of the \<open>re\<close> module holds of exactly these code points, and \<open>float\<close> and \<open>int\<close>
  read them with this value. \<open>lower\<close> is \<open>str.lower\<close>.
\<close>

record unicode =
  decimal :: "nat \<Rightarrow> nat option"
  lower :: "pystr \<Rightarrow> pystr"

definition is_digit :: "unicode \<Rightarrow> nat \<Rightarrow> bool" where
  "is_digit u c = (decimal u c \<noteq> None)"

text \<open>
  What the tables say of ASCII is the same in every version: the decimal digits are 0 to
  9, and lowering maps the capitals A to Z. On a \<open>plain\<close> text the tables say no more than
  that: its decimal digits are the ASCII ones, and lowering it changes its ASCII capitals
  only. \<open>ascii_unicode\<close> are the tables for which every text is plain.
\<close>

definition ascii_decimal :: "nat \<Rightarrow> nat option" where
  "ascii_decimal c = (if 48 \<le> c \<and> c \<le> 57 then Some (c - 48) else None)"

definition lower_cp :: "nat \<Rightarrow> nat" where
  "lower_cp c = (if 65 \<le> c \<and> c \<le> 90 then c + 32 else c)"

definition plain :: "unicode \<Rightarrow> pystr \<Rightarrow> bool" where
  "plain u s = (list_all (\<lambda>c. decimal u c = ascii_decimal c) s \<and> lower u s = map lower_cp s)"

definition ascii_unicode :: unicode where
  "ascii_unicode = \<lparr> decimal = ascii_decimal, lower = map lower_cp \<rparr>"

text \<open>\<open>str.strip\<close> removes the code points for which \<open>str.isspace\<close> holds from both ends.\<close>

definition is_space :: "nat \<Rightarrow> bool" where
  "is_space c = ((9 \<le> c \<and> c \<le> 13) \<or> (28 \<le> c \<and> c \<le> 32) \<or> c = 133 \<or> c = 160 \<or>
     c = 5760 \<or> (8192 \<le> c \<and> c \<le> 8202) \<or> c = 8232 \<or> c = 8233 \<or> c = 8239 \<or>
     c = 8287 \<or> c = 12288)"

definition py_strip :: "pystr \<Rightarrow> pystr" where
  "py_strip s = rev (dropWhile is_space (rev (dropWhile is_space s)))"

text \<open>\<open>sub in text\<close>: \<open>sub\<close> occurs in \<open>text\<close> as a contiguous run.\<close>

fun py_in :: "pystr \<Rightarrow> pystr \<Rightarrow> bool" where
  "py_in sub [] = (sub = [])"
| "py_in sub (c # cs) = (take (length sub) (c # cs) = sub \<or> py_in sub cs)"

text \<open>Python's truth value of an optional integer column: \<open>None\<close> and \<open>0\<close> are false.\<close>

definition truthy :: "int option \<Rightarrow> bool" where
  "truthy p = (case p of None \<Rightarrow> False | Some n \<Rightarrow> n \<noteq> 0)"

text \<open>
  The exceptions of the model: \<open>AdapterError\<close> stands for whatever the parsing code of an
  adapter raises, \<open>StoreError\<close> for what the commit raises.
\<close>

datatype error = ValueError | OverflowError | AdapterError | StoreError

subsection \<open>Floats\<close>

text \<open>
  \<open>float(numeric)\<close> converts a decimal string to the nearest IEEE 754 double (ties to
  even), and \<open>val * 100000\<close> rounds the exact product the same way. No sign can reach these
  operations (the caller deletes every character but digits and dots), so a float is a
  non-negative rational that a double represents, or positive infinity.
\<close>

datatype pyfloat = Finite rat | Infinity

definition pow2 :: "int \<Rightarrow> rat" where
  "pow2 e = (if 0 \<le> e then 2 ^ nat e else 1 / 2 ^ nat (- e))"

text \<open>For \<open>x > 0\<close>, the integer \<open>k\<close> with \<open>2 ^ k \<le> x < 2 ^ (k + 1)\<close>.\<close>

definition floor_log2 :: "rat \<Rightarrow> int" where
  "floor_log2 x =
     (let (a, b) = quotient_of x; k = bitlen a - bitlen b
      in if pow2 k \<le> x then k else k - 1)"

definition round_half_even :: "rat \<Rightarrow> int" where
  "round_half_even x =
     (let f = \<lfloor>x\<rfloor>; d = x - of_int f
      in if d < 1 / 2 then f else if 1 / 2 < d then f + 1 else if even f then f else f + 1)"

text \<open>
  Doubles around \<open>x\<close> are spaced \<open>2 ^ e\<close> apart, where \<open>e\<close> leaves 53 significant bits and is
  at least \<open>-1074\<close> (the subnormal spacing); a result of \<open>2 ^ 1024\<close> or more is infinity.
\<close>

definition round_double :: "rat \<Rightarrow> pyfloat" where
  "round_double x =
     (if x = 0 then Finite 0
      else let e = max (floor_log2 x - 52) (- 1074);
               y = of_int (round_half_even (x / pow2 e)) * pow2 e
           in if 2 ^ 1024 \<le> y then Infinity else Finite y)"

text \<open>The number a string of decimal digits spells.\<close>

definition digit_of :: "unicode \<Rightarrow> nat \<Rightarrow> nat" where
  "digit_of u c = (case decimal u c of None \<Rightarrow> 0 | Some v \<Rightarrow> v)"

definition digits_value :: "unicode \<Rightarrow> pystr \<Rightarrow> nat" where
  "digits_value u ds = foldl (\<lambda>a c. 10 * a + digit_of u c) 0 ds"

text \<open>
  \<open>float(s)\<close> for a string \<open>s\<close> of digits and dots, the only strings the price filter
  passes: digits with at most one dot and at least one digit are a number, anything else
  raises \<open>ValueError\<close>.
\<close>

definition py_float :: "unicode \<Rightarrow> pystr \<Rightarrow> error + pyfloat" where
  "py_float u s =
     (let ip = takeWhile (is_digit u) s; rest = dropWhile (is_digit u) s
      in case rest of
           [] \<Rightarrow> if ip = [] then Inl ValueError
                 else Inr (round_double (of_nat (digits_value u ip)))
         | c # fp \<Rightarrow>
             if c = 46 \<and> list_all (is_digit u) fp \<and> (ip \<noteq> [] \<or> fp \<noteq> [])
             then Inr (round_double
                    (of_nat (digits_value u ip) +
                     of_nat (digits_value u fp) / 10 ^ length fp))
             else Inl ValueError)"

definition float_mul :: "pyfloat \<Rightarrow> nat \<Rightarrow> pyfloat" where
  "float_mul v k = (case v of Infinity \<Rightarrow> Infinity | Finite x \<Rightarrow> round_double (x * of_nat k))"

text \<open>\<open>int(val)\<close> truncates; \<open>int\<close> of infinity raises \<open>OverflowError\<close>.\<close>

definition int_of_float :: "pyfloat \<Rightarrow> error + int" where
  "int_of_float v = (case v of Infinity \<Rightarrow> Inl OverflowError | Finite x \<Rightarrow> Inr \<lfloor>x\<rfloor>)"

section \<open>The price filters\<close>

text \<open>
  The price filter of \<open>check_tracker\<close> (deal tracker). \<open>Inr True\<close>: the candidate goes on to
  be stored; \<open>Inr False\<close>: the loop takes \<open>continue\<close>; \<open>Inl\<close>: the exception leaves
  \<open>check_tracker\<close>.
\<close>

definition numeric_char :: "unicode \<Rightarrow> nat \<Rightarrow> bool" where
  "numeric_char u c = (is_digit u c \<or> c = 46)"

definition deal_price_filter ::
  "unicode \<Rightarrow> int option \<Rightarrow> int option \<Rightarrow> pystr \<Rightarrow> error + bool" where
  "deal_price_filter u min_price max_price price_text =
     (if truthy min_price \<or> truthy max_price then
        (let numeric = filter (numeric_char u) price_text
         in if numeric \<noteq> [] then
              (case py_float u numeric of
                 Inl e \<Rightarrow> Inl e
               | Inr val0 \<Rightarrow>
                   (let val1 = (if py_in (str ''lakh'') (lower u price_text)
                                then float_mul val0 100000 else val0)
                    in case int_of_float val1 of
                         Inl e \<Rightarrow> Inl e
                       | Inr val \<Rightarrow>
                           if truthy min_price \<and> val < the min_price then Inr False
                           else if truthy max_price \<and> the max_price < val then Inr False
                           else Inr True))
            else Inr True)
      else Inr True)"





text \<open>
  The price filter of \<open>check_hotel_tracker\<close>: only digits are kept and \<open>int(numeric)\<close> reads
  them. The interpreter refuses to convert more than \<open>sys.get_int_max_str_digits()\<close>
  digits (a setting of the interpreter, 0 for no limit), which is the parameter
  \<open>max_str_digits\<close>.
\<close>

definition py_int :: "unicode \<Rightarrow> nat \<Rightarrow> pystr \<Rightarrow> error + int" where
  "py_int u max_str_digits ds =
     (if ds = [] \<or> \<not> list_all (is_digit u) ds then Inl ValueError
      else if 0 < max_str_digits \<and> max_str_digits < length ds then Inl ValueError
      else Inr (int (digits_value u ds)))"

definition hotel_price_filter ::
  "unicode \<Rightarrow> nat \<Rightarrow> int option \<Rightarrow> int option \<Rightarrow> pystr \<Rightarrow> error + bool" where
  "hotel_price_filter u max_str_digits min_price max_price price_text =
     (if truthy min_price \<or> truthy max_price then
        (let numeric = filter (is_digit u) price_text
         in if numeric \<noteq> [] then
              (case py_int u max_str_digits numeric of
                 Inl e \<Rightarrow> Inl e
               | Inr val \<Rightarrow>
                   if truthy min_price \<and> val < the min_price then Inr False
                   else if truthy max_price \<and> the max_price < val then Inr False
                   else Inr True)
            else Inr True)
      else Inr True)"

section \<open>The deal tracker\<close>

subsection \<open>Rows and the store\<close>

text \<open>
  \<open>DealTracker\<close> and \<open>DealListing\<close> are the rows of \<open>models.py\<close> (the primary key of a tracker
  is \<open>id_t\<close>; the surrogate key and \<open>found_at\<close> of a listing, which no code of the pipeline
  reads, are left out: a listing row is identified by its position in the table, in
  insertion order). \<open>platforms\<close> is the decoded JSON column: \<open>None\<close> when the column is
  empty, so that \<open>check_tracker\<close> takes its default. \<open>last_checked\<close> is a clock reading.
\<close>

record DealTracker =
  id_t :: int
  search_query :: pystr
  category :: pystr
  city :: "pystr option"
  min_price :: "int option"
  max_price :: "int option"
  platforms :: "pystr list option"
  whatsapp_number :: pystr
  is_active :: bool
  last_checked :: "nat option"

record DealListing =
  tracker_id :: int
  title :: pystr
  price :: pystr
  location :: pystr
  url :: pystr
  image_url :: pystr
  platform :: pystr
  description :: pystr
  is_new :: bool

record db =
  deal_trackers :: "DealTracker list"
  deal_listings :: "DealListing list"

text \<open>
  A raw item is the dict an adapter returns, with strings for values; \<open>item_get\<close> is
  \<open>item.get(key, default)\<close>.
\<close>

type_synonym RawItem = "pystr \<rightharpoonup> pystr"

definition item_get :: "RawItem \<Rightarrow> pystr \<Rightarrow> pystr \<Rightarrow> pystr" where
  "item_get item k d = (case item k of None \<Rightarrow> d | Some v \<Rightarrow> v)"

subsection \<open>Source adapters\<close>

text \<open>
  What lies outside the program is a parameter, the \<open>world\<close>: the Unicode tables of the
  interpreter; for each adapter the outcome of its \<open>try\<close> block (the request raises, or a
  page of some type \<open>'p\<close> arrives) and what its parsing code makes of a page; the stored
  SerpAPI key; and whether the commit of a tracker's check raises.

  \<open>scrape_cardekho\<close>, \<open>scrape_olx\<close> and \<open>scrape_quikr\<close> parse the page after their \<open>try\<close>
  block, so what the parsing code raises leaves the adapter: their parsers return the
  items or an exception. \<open>scrape_serpapi\<close> parses inside the \<open>try\<close> block of each query:
  its parser returns the items that were appended, and nothing leaves the adapter.
\<close>

datatype 'p fetch = Raises | Page 'p

record 'p world =
  tables :: unicode
  get_cardekho :: "pystr \<Rightarrow> pystr \<Rightarrow> pystr \<Rightarrow> 'p fetch"
  parse_cardekho :: "pystr \<Rightarrow> 'p \<Rightarrow> error + RawItem list"
  get_olx :: "pystr \<Rightarrow> pystr \<Rightarrow> 'p fetch"
  parse_olx :: "'p \<Rightarrow> error + RawItem list"
  get_quikr :: "pystr \<Rightarrow> pystr \<Rightarrow> pystr \<Rightarrow> 'p fetch"
  parse_quikr :: "'p \<Rightarrow> error + RawItem list"
  serpapi_key :: pystr
  get_serpapi :: "pystr \<Rightarrow> 'p fetch"
  parse_serpapi :: "pystr \<Rightarrow> 'p \<Rightarrow> RawItem list"
  commit_raises :: "int \<Rightarrow> bool"

definition scrape_cardekho ::
  "'p world \<Rightarrow> pystr \<Rightarrow> pystr \<Rightarrow> pystr \<Rightarrow> error + RawItem list" where
  "scrape_cardekho w query city_arg category_arg =
     (if category_arg = str ''cars'' \<or> category_arg = str ''other''
         \<or> category_arg = str ''bikes''
      then (case get_cardekho w query city_arg category_arg of
              Raises \<Rightarrow> Inr []
            | Page p \<Rightarrow> parse_cardekho w city_arg p)
      else Inr [])"

definition scrape_olx :: "'p world \<Rightarrow> pystr \<Rightarrow> pystr \<Rightarrow> error + RawItem list" where
  "scrape_olx w query city_arg =
     (case get_olx w query city_arg of Raises \<Rightarrow> Inr [] | Page p \<Rightarrow> parse_olx w p)"

definition scrape_quikr ::
  "'p world \<Rightarrow> pystr \<Rightarrow> pystr \<Rightarrow> pystr \<Rightarrow> error + RawItem list" where
  "scrape_quikr w query city_arg category_arg =
     (case get_quikr w query city_arg category_arg of
        Raises \<Rightarrow> Inr []
      | Page p \<Rightarrow> parse_quikr w p)"

text \<open>The closing loop of \<open>scrape_serpapi\<close>: the first item of every URL is kept.\<close>

fun unique_by_url :: "pystr list \<Rightarrow> RawItem list \<Rightarrow> RawItem list" where
  "unique_by_url seen_urls [] = []"
| "unique_by_url seen_urls (item # items) =
     (let u = item_get item (str ''url'') []
      in if u \<notin> set seen_urls then item # unique_by_url (u # seen_urls) items
         else unique_by_url seen_urls items)"

definition serpapi_query :: "'p world \<Rightarrow> pystr \<Rightarrow> pystr \<Rightarrow> RawItem list" where
  "serpapi_query w city_arg sq =
     (case get_serpapi w sq of Raises \<Rightarrow> [] | Page p \<Rightarrow> parse_serpapi w city_arg p)"

definition scrape_serpapi :: "'p world \<Rightarrow> pystr \<Rightarrow> pystr \<Rightarrow> pystr \<Rightarrow> RawItem list" where
  "scrape_serpapi w query city_arg category_arg =
     (if serpapi_key w = [] then []
      else
        (let site_queries =
               [query @ str '' '' @ city_arg @ str '' used buy site:olx.in OR site:quikr.com'',
                query @ str '' '' @ city_arg @ str '' used price buy sell''];
             listings = concat (map (serpapi_query w city_arg) site_queries)
         in unique_by_url [] listings))"

subsection \<open>\<open>check_tracker\<close>\<close>

definition make_listing :: "DealTracker \<Rightarrow> pystr \<Rightarrow> RawItem \<Rightarrow> pystr \<Rightarrow> DealListing" where
  "make_listing tracker platform_arg item item_url =
     \<lparr> tracker_id = id_t tracker,
       title = take 500 (item_get item (str ''title'') []),
       price = take 100 (item_get item (str ''price'') []),
       location = take 200 (item_get item (str ''location'') []),
       url = take 1000 item_url,
       image_url = take 1000 (item_get item (str ''image_url'') []),
       platform = item_get item (str ''platform_override'') platform_arg,
       description = item_get item (str ''description'') [],
       is_new = True \<rparr>"

text \<open>
  The duplicate check queries the session, which flushes the rows added so far before it
  runs the query (the session of \<open>SQLAlchemy()\<close> keeps its default \<open>autoflush\<close>): the table
  the query sees holds the committed rows and the rows this check has added.
\<close>

definition listing_exists :: "DealListing list \<Rightarrow> int \<Rightarrow> pystr \<Rightarrow> bool" where
  "listing_exists table tid item_url =
     list_ex (\<lambda>l. tracker_id l = tid \<and> url l = item_url) table"

text \<open>
  The inner loop \<open>for item in raw\<close>, under the tables \<open>u\<close>. The state is the table as the
  session sees it and \<open>new_listings\<close>; an exception of the price filter ends the loop and
  the check.
\<close>

fun scan_items ::
  "unicode \<Rightarrow> DealTracker \<Rightarrow> pystr \<Rightarrow> RawItem list \<Rightarrow> DealListing list \<times> DealListing list
     \<Rightarrow> error + DealListing list \<times> DealListing list" where
  "scan_items u tracker platform_arg [] acc = Inr acc"
| "scan_items u tracker platform_arg (item # raw) (table, new_listings) =
     (let item_url = py_strip (item_get item (str ''url'') [])
      in if item_url = [] then scan_items u tracker platform_arg raw (table, new_listings)
         else if listing_exists table (id_t tracker) item_url
         then scan_items u tracker platform_arg raw (table, new_listings)
         else
           (case deal_price_filter u (min_price tracker) (max_price tracker)
                   (item_get item (str ''price'') []) of
              Inl e \<Rightarrow> Inl e
            | Inr admitted \<Rightarrow>
                if admitted then
                  (let listing = make_listing tracker platform_arg item item_url
                   in scan_items u tracker platform_arg raw
                        (table @ [listing], new_listings @ [listing]))
                else scan_items u tracker platform_arg raw (table, new_listings)))"

text \<open>
  The call of the adapter of a platform: \<open>None\<close> for an unknown platform, which the loop
  skips, and else what the adapter returns or raises.
\<close>

definition scrape ::
  "'p world \<Rightarrow> DealTracker \<Rightarrow> pystr \<Rightarrow> pystr \<Rightarrow> (error + RawItem list) option" where
  "scrape w tracker city_arg platform_arg =
     (if platform_arg = str ''serpapi''
      then Some (Inr (scrape_serpapi w (search_query tracker) city_arg (category tracker)))
      else if platform_arg = str ''cardekho''
      then Some (scrape_cardekho w (search_query tracker) city_arg (category tracker))
      else if platform_arg = str ''olx''
      then Some (scrape_olx w (search_query tracker) city_arg)
      else if platform_arg = str ''quikr''
      then Some (scrape_quikr w (search_query tracker) city_arg (category tracker))
      else None)"

text \<open>The outer loop \<open>for platform in platforms\<close>.\<close>

fun scan_platforms ::
  "'p world \<Rightarrow> DealTracker \<Rightarrow> pystr \<Rightarrow> pystr list \<Rightarrow> DealListing list \<times> DealListing list
     \<Rightarrow> error + DealListing list \<times> DealListing list" where
  "scan_platforms w tracker city_arg [] acc = Inr acc"
| "scan_platforms w tracker city_arg (p # ps) acc =
     (case scrape w tracker city_arg p of
        None \<Rightarrow> scan_platforms w tracker city_arg ps acc
      | Some (Inl e) \<Rightarrow> Inl e
      | Some (Inr raw) \<Rightarrow>
          (case scan_items (tables w) tracker p raw acc of
             Inl e \<Rightarrow> Inl e
           | Inr acc' \<Rightarrow> scan_platforms w tracker city_arg ps acc'))"

definition touch :: "nat \<Rightarrow> int \<Rightarrow> DealTracker \<Rightarrow> DealTracker" where
  "touch now tid t = (if id_t t = tid then t\<lparr>last_checked := Some now\<rparr> else t)"

text \<open>
  \<open>check_tracker\<close> at the clock reading \<open>now\<close>. It returns \<open>new_listings\<close> and the store
  after the commit, or the exception that left it, in which case nothing of this check is
  committed.
\<close>

definition check_tracker ::
  "'p world \<Rightarrow> nat \<Rightarrow> DealTracker \<Rightarrow> db \<Rightarrow> error + DealListing list \<times> db" where
  "check_tracker w now tracker d =
     (let plats = (case platforms tracker of None \<Rightarrow> [str ''serpapi''] | Some ps \<Rightarrow> ps);
          city_arg = lower (tables w) (py_strip
            (case city tracker of
               None \<Rightarrow> str ''Mumbai''
             | Some c \<Rightarrow> if c = [] then str ''Mumbai'' else c))
      in case scan_platforms w tracker city_arg plats (deal_listings d, []) of
           Inl e \<Rightarrow> Inl e
         | Inr (table, new_listings) \<Rightarrow>
             if commit_raises w (id_t tracker) then Inl StoreError
             else Inr (new_listings,
                       \<lparr> deal_trackers = map (touch now (id_t tracker)) (deal_trackers d),
                         deal_listings = table \<rparr>))"

subsection \<open>The routes \<open>results\<close> and \<open>check_all\<close>\<close>

text \<open>
  \<open>results\<close> marks the new listings of a tracker as viewed (the page it renders does not
  touch the store); for an unknown tracker it redirects and changes nothing.
\<close>

definition mark_viewed :: "int \<Rightarrow> DealListing \<Rightarrow> DealListing" where
  "mark_viewed tid l = (if tracker_id l = tid \<and> is_new l then l\<lparr>is_new := False\<rparr> else l)"

definition results :: "int \<Rightarrow> db \<Rightarrow> db" where
  "results tid d =
     (if list_ex (\<lambda>t. id_t t = tid) (deal_trackers d)
      then d\<lparr>deal_listings := map (mark_viewed tid) (deal_listings d)\<rparr>
      else d)"

text \<open>
  \<open>check_all\<close>: the loop over the active trackers, with the running \<open>total_new\<close>. The alert
  \<open>send_deal_alert\<close> catches what its transport raises and writes nothing to the store, so
  it is no step of the model. \<open>clock\<close> gives the clock reading at the check of each
  tracker. The route has no \<open>try\<close>: an exception of \<open>check_tracker\<close> leaves it, and the
  result is that exception beside the store as committed so far.
\<close>

fun check_all_loop ::
  "'p world \<Rightarrow> (int \<Rightarrow> nat) \<Rightarrow> DealTracker list \<Rightarrow> db \<Rightarrow> nat \<Rightarrow> db \<times> (error + nat)" where
  "check_all_loop w clock [] d total_new = (d, Inr total_new)"
| "check_all_loop w clock (tracker # trackers) d total_new =
     (case check_tracker w (clock (id_t tracker)) tracker d of
        Inl e \<Rightarrow> (d, Inl e)
      | Inr (new, d') \<Rightarrow> check_all_loop w clock trackers d' (total_new + length new))"

definition check_all :: "'p world \<Rightarrow> (int \<Rightarrow> nat) \<Rightarrow> db \<Rightarrow> db \<times> (error + nat)" where
  "check_all w clock d = check_all_loop w clock (filter is_active (deal_trackers d)) d 0"

subsection \<open>Sequences of operations\<close>

text \<open>
  The operations of the pipeline and of the view path on the store: a check of one
  tracker, the sweep over the active trackers, and the results page. A check that an
  exception leaves commits nothing.
\<close>

datatype 'p operation =
    Check "'p world" nat DealTracker
  | CheckAll "'p world" "int \<Rightarrow> nat"
  | View int

fun step :: "'p operation \<Rightarrow> db \<Rightarrow> db" where
  "step (Check w now tracker) d =
     (case check_tracker w now tracker d of Inl e \<Rightarrow> d | Inr (new, d') \<Rightarrow> d')"
| "step (CheckAll w clock) d = fst (check_all w clock d)"
| "step (View tid) d = results tid d"

definition run :: "'p operation list \<Rightarrow> db \<Rightarrow> db" where
  "run ops d = foldl (\<lambda>d' operation. step operation d') d ops"

text \<open>
  An item is settled for a tracker and a table when the loop of \<open>check_tracker\<close> passes it
  by: it has no URL, or a listing of the tracker has its URL, or the price filter rejects
  it.
\<close>

definition settled :: "unicode \<Rightarrow> DealTracker \<Rightarrow> DealListing list \<Rightarrow> RawItem \<Rightarrow> bool" where
  "settled u tracker table item =
     (let item_url = py_strip (item_get item (str ''url'') [])
      in item_url = [] \<or> listing_exists table (id_t tracker) item_url \<or>
         deal_price_filter u (min_price tracker) (max_price tracker)
           (item_get item (str ''price'') []) = Inr False)"

text \<open>The stripped URL of an item fits the column of 1000 characters.\<close>

definition short_url :: "RawItem \<Rightarrow> bool" where
  "short_url item = (length (py_strip (item_get item (str ''url'') [])) \<le> 1000)"

subsection \<open>Example inputs\<close>

text \<open>
  A world, under given tables, in which only OLX answers, with the given items, and the
  commit raises for the trackers \<open>failing\<close> holds of; and a world in which every request
  raises.
\<close>

definition olx_world :: "unicode \<Rightarrow> RawItem list \<Rightarrow> (int \<Rightarrow> bool) \<Rightarrow> unit world" where
  "olx_world u items failing =
     \<lparr> tables = u,
       get_cardekho = (\<lambda>q c k. Raises), parse_cardekho = (\<lambda>c p. Inr []),
       get_olx = (\<lambda>q c. Page ()), parse_olx = (\<lambda>p. Inr items),
       get_quikr = (\<lambda>q c k. Raises), parse_quikr = (\<lambda>p. Inr []),
       serpapi_key = [], get_serpapi = (\<lambda>sq. Raises), parse_serpapi = (\<lambda>c p. []),
       commit_raises = failing \<rparr>"

definition offline_world :: "unicode \<Rightarrow> (int \<Rightarrow> bool) \<Rightarrow> unit world" where
  "offline_world u failing =
     \<lparr> tables = u,
       get_cardekho = (\<lambda>q c k. Raises), parse_cardekho = (\<lambda>c p. Inl AdapterError),
       get_olx = (\<lambda>q c. Raises), parse_olx = (\<lambda>p. Inl AdapterError),
       get_quikr = (\<lambda>q c k. Raises), parse_quikr = (\<lambda>p. Inl AdapterError),
       serpapi_key = str ''key'', get_serpapi = (\<lambda>sq. Raises),
       parse_serpapi = (\<lambda>c p. [Map.empty]),
       commit_raises = failing \<rparr>"

definition example_tracker :: "int \<Rightarrow> pystr list \<Rightarrow> nat option \<Rightarrow> DealTracker" where
  "example_tracker n plats checked =
     \<lparr> id_t = n, search_query = str ''iphone 13'', category = str ''phones'',
       city = Some (str ''Mumbai''), min_price = None, max_price = None,
       platforms = Some plats, whatsapp_number = [], is_active = True,
       last_checked = checked \<rparr>"

text \<open>An item whose URL has 1001 characters, and the listing stored for it.\<close>

definition long_url :: pystr where
  "long_url = replicate 1001 97"

definition long_item :: RawItem where
  "long_item = [str ''title'' \<mapsto> str ''iPhone 13'', str ''url'' \<mapsto> long_url]"

definition long_listing :: DealListing where
  "long_listing =
     \<lparr> tracker_id = 1, title = str ''iPhone 13'', price = [], location = [],
       url = replicate 1000 97, image_url = [], platform = str ''olx'', description = [],
       is_new = True \<rparr>"

text \<open>
  An item priced "Rs. " (the price pattern of \<open>scrape_cardekho\<close>, for one, takes this text
  out of a card that reads "Rs. 5.5 Lakh"), and a tracker with price bounds.
\<close>

definition dot_item :: RawItem where
  "dot_item =
     [str ''title'' \<mapsto> str ''Swift Dzire'', str ''url'' \<mapsto> str ''https://x.in/1'',
      str ''price'' \<mapsto> str ''Rs. '']"

definition bounded_tracker :: DealTracker where
  "bounded_tracker =
     (example_tracker 1 [str ''olx''] None)\<lparr>min_price := Some 1000, max_price := Some 5000\<rparr>"

section \<open>Leads from YouTube comments\<close>

text \<open>
  \<open>BUSINESS_KEYWORDS\<close> in the order of the dict literal, which is the order its \<open>items()\<close>
  are visited in.
\<close>

definition BUSINESS_KEYWORDS :: "(pystr \<times> int) list" where
  "BUSINESS_KEYWORDS =
    [(str ''interested'', 20), (str ''price'', 20), (str ''pricing'', 20),
     (str ''cost'', 20), (str ''rate'', 15), (str ''bulk'', 20), (str ''supplier'', 20),
     (str ''supply'', 15), (str ''vendor'', 15), (str ''dealer'', 15),
     (str ''contact'', 20), (str ''whatsapp'', 20), (str ''order'', 20), (str ''buy'', 15),
     (str ''purchase'', 15), (str ''available'', 15), (str ''stock'', 15),
     (str ''deliver'', 15), (str ''delivery'', 15), (str ''ship'', 15),
     (str ''shipping'', 15), (str ''wholesale'', 20), (str ''distributor'', 20),
     (str ''quotation'', 20), (str ''quote'', 20), (str ''sample'', 15),
     (str ''catalog'', 15), (str ''catalogue'', 15), (str ''need'', 10),
     (str ''require'', 10), (str ''looking for'', 15), (str ''want to buy'', 20),
     (str ''export'', 15), (str ''import'', 15), (str ''business'', 10),
     (str ''company'', 10)]"

record comment =
  c_author :: pystr
  c_author_channel :: pystr
  c_text :: pystr
  c_likes :: int
  c_published :: pystr

record lead =
  lead_author :: pystr
  lead_author_channel :: pystr
  lead_text :: pystr
  lead_likes :: int
  lead_published :: pystr
  emails :: "pystr list"
  phones :: "pystr list"
  score :: int
  lead_keywords :: "pystr list"

text \<open>
  Beside the tables \<open>u\<close> of the interpreter, the regular expressions and the calendar are
  the library's: what \<open>EMAIL_PATTERN.findall\<close>
  and \<open>PHONE_PATTERN.findall\<close> return for a text, and whether the \<open>try\<close> block of the recency
  bonus finds the publication date less than 30 days old, are parameters.
\<close>

record matchers =
  find_emails :: "pystr \<Rightarrow> pystr list"
  find_phones :: "pystr \<Rightarrow> pystr list"
  is_recent :: "pystr \<Rightarrow> bool"

definition ends_with :: "pystr \<Rightarrow> pystr \<Rightarrow> bool" where
  "ends_with s suffix =
     (length suffix \<le> length s \<and> drop (length s - length suffix) s = suffix)"

definition keep_email :: "pystr \<Rightarrow> bool" where
  "keep_email e =
     (\<not> (ends_with e (str ''.png'') \<or> ends_with e (str ''.jpg'') \<or>
         ends_with e (str ''.gif'') \<or> ends_with e (str ''.mp4'')))"

definition keep_phone :: "unicode \<Rightarrow> pystr \<Rightarrow> bool" where
  "keep_phone u p = (7 \<le> length (filter (is_digit u) p))"

text \<open>The loop over \<open>BUSINESS_KEYWORDS.items()\<close>, on \<open>score\<close> and \<open>matched_keywords\<close>.\<close>

fun keyword_loop :: "(pystr \<times> int) list \<Rightarrow> pystr \<Rightarrow> int \<times> pystr list \<Rightarrow> int \<times> pystr list" where
  "keyword_loop [] text_lower acc = acc"
| "keyword_loop ((kw, pts) # rest) text_lower (sc, matched_keywords) =
     (if py_in kw text_lower
      then keyword_loop rest text_lower (sc + pts, matched_keywords @ [kw])
      else keyword_loop rest text_lower (sc, matched_keywords))"

definition contact_points :: "unicode \<Rightarrow> matchers \<Rightarrow> comment \<Rightarrow> int" where
  "contact_points u m c =
     (if filter keep_email (find_emails m (c_text c)) \<noteq> [] then 50 else 0) +
     (if map py_strip (filter (keep_phone u) (find_phones m (c_text c))) \<noteq> []
      then 40 else 0)"

definition bonus_points :: "matchers \<Rightarrow> comment \<Rightarrow> int" where
  "bonus_points m c =
     (if 5 \<le> c_likes c then 10 else 0) + (if is_recent m (c_published c) then 10 else 0)"

text \<open>The body of the loop over the comments: the lead made of one comment.\<close>

definition make_lead :: "unicode \<Rightarrow> matchers \<Rightarrow> comment \<Rightarrow> lead" where
  "make_lead u m c =
     (let text_lower = lower u (c_text c);
          sc0 = (if filter keep_email (find_emails m (c_text c)) \<noteq> [] then 50 else 0);
          sc1 = sc0 + (if map py_strip (filter (keep_phone u) (find_phones m (c_text c)))
                            \<noteq> []
                       then 40 else 0);
          (sc2, matched_keywords) = keyword_loop BUSINESS_KEYWORDS text_lower (sc1, []);
          sc3 = sc2 + (if 5 \<le> c_likes c then 10 else 0);
          sc4 = sc3 + (if is_recent m (c_published c) then 10 else 0)
      in \<lparr> lead_author = c_author c,
           lead_author_channel = c_author_channel c,
           lead_text = c_text c,
           lead_likes = c_likes c,
           lead_published = c_published c,
           emails = filter keep_email (find_emails m (c_text c)),
           phones = map py_strip (filter (keep_phone u) (find_phones m (c_text c))),
           score = sc4,
           lead_keywords = matched_keywords \<rparr>)"

definition skipped :: "unicode \<Rightarrow> pystr \<Rightarrow> comment \<Rightarrow> bool" where
  "skipped u kw_filter c = (kw_filter \<noteq> [] \<and> \<not> py_in kw_filter (lower u (c_text c)))"

text \<open>
  \<open>leads.sort(key=lambda x: x['score'], reverse=True)\<close> is a stable sort by falling score:
  leads of equal score keep their order. \<open>sort_key\<close> is a stable insertion sort.
\<close>

definition extract_leads_from_comments ::
  "unicode \<Rightarrow> matchers \<Rightarrow> comment list \<Rightarrow> pystr \<Rightarrow> lead list" where
  "extract_leads_from_comments u m comments keyword_filter =
     (let kw_filter = py_strip (lower u keyword_filter);
          leads = map (make_lead u m) (filter (\<lambda>c. \<not> skipped u kw_filter c) comments)
      in sort_key (\<lambda>l. - score l) leads)"

text \<open>
  The number of places at which \<open>sub\<close> occurs in \<open>t\<close>, to say what a score does not depend
  on.
\<close>

definition occurrences :: "pystr \<Rightarrow> pystr \<Rightarrow> nat" where
  "occurrences sub t =
     length (filter (\<lambda>i. take (length sub) (drop i t) = sub) [0..<Suc (length t)])"

section \<open>Floats that are exact\<close>

lemma pow2_nonneg_exp: "0 \<le> e \<Longrightarrow> pow2 e = 2 ^ nat e"
  by (simp add: pow2_def)

lemma floor_log2_of_nat:
  assumes "0 < n"
  shows "floor_log2 (of_nat n) = bitlen (int n) - 1"
proof -
  have q: "quotient_of (of_nat n :: rat) = (int n, 1)"
    using quotient_of_int [of "int n"] by simp
  from assms have pos: "0 < int n" by simp
  have b1: "bitlen 1 = 1"
    by (simp add: bitlen_alt_def)
  have ge: "1 \<le> bitlen (int n)"
    using pos by (simp add: bitlen_alt_def)
  have "(2::int) ^ nat (bitlen (int n) - 1) \<le> int n"
    using bitlen_bounds [OF pos] by simp
  then have "(of_int ((2::int) ^ nat (bitlen (int n) - 1)) :: rat) \<le> of_int (int n)"
    by (simp only: of_int_le_iff)
  then have "pow2 (bitlen (int n) - 1) \<le> of_nat n"
    using ge by (simp add: pow2_nonneg_exp)
  then show ?thesis
    by (simp add: floor_log2_def q b1)
qed

lemma round_half_even_of_int: "round_half_even (of_int k) = k"
  by (simp add: round_half_even_def)

text \<open>A whole number below \<open>2 ^ 53\<close> is a double: rounding leaves it as it is.\<close>

lemma round_double_of_nat:
  assumes "n < 2 ^ 53"
  shows "round_double (of_nat n) = Finite (of_nat n)"
proof (cases "n = 0")
  case True
  then show ?thesis by (simp add: round_double_def)
next
  case False
  then have pos: "0 < int n" by simp
  define s where "s = nat (53 - bitlen (int n))"
  have "int n < 2 ^ 53" using assms
    by (metis of_nat_less_iff of_nat_numeral of_nat_power)
  then have le53: "bitlen (int n) \<le> 53"
    using bitlen_le_iff_power [of "int n" 53] by simp
  have ge1: "1 \<le> bitlen (int n)"
    using pos by (simp add: bitlen_alt_def)
  have e: "max (floor_log2 (of_nat n) - 52) (- 1074) = - int s"
    using le53 ge1 False by (simp add: floor_log2_of_nat s_def)
  have p: "pow2 (- int s) = 1 / 2 ^ s"
    by (cases "s = 0") (simp_all add: pow2_def)
  have m: "(of_nat n :: rat) / pow2 (- int s) = of_int (int n * 2 ^ s)"
    by (simp add: p)
  have y: "of_int (round_half_even (of_nat n / pow2 (- int s))) * pow2 (- int s)
             = (of_nat n :: rat)"
    unfolding m round_half_even_of_int by (simp add: p)
  have "(of_nat n :: rat) < of_nat (2 ^ 53)"
    using assms by (simp only: of_nat_less_iff)
  also have "\<dots> \<le> 2 ^ 1024" by simp
  finally have small: "\<not> (2 ^ 1024 \<le> (of_nat n :: rat))" by simp
  show ?thesis
    using False small by (simp add: round_double_def e y Let_def)
qed

lemma round_double_numeral:
  "(numeral k :: nat) < 2 ^ 53 \<Longrightarrow> round_double (numeral k) = Finite (numeral k)"
  using round_double_of_nat [of "numeral k"] by simp

lemma round_double_one: "round_double 1 = Finite 1"
  using round_double_of_nat [of 1] by simp

lemma pow2_powi: "pow2 e = 2 powi e"
  by (simp add: pow2_def power_int_def power_inverse inverse_eq_divide power_one_over)


lemma pow2_less: "i < j \<Longrightarrow> pow2 i < pow2 j"
  by (simp add: pow2_powi power_int_strict_increasing)








lemma py_float_digits:
  assumes "ds \<noteq> []" and "list_all (is_digit u) ds"
  shows "py_float u ds = Inr (round_double (of_nat (digits_value u ds)))"
proof -
  from assms(2) have t: "takeWhile (is_digit u) ds = ds" and d: "dropWhile (is_digit u) ds = []"
    by (simp_all add: list_all_iff)
  show ?thesis
    unfolding py_float_def t d using assms(1) by simp
qed

lemma int_of_float_of_nat: "int_of_float (Finite (of_nat k)) = Inr (int k)"
proof -
  have "\<lfloor>(of_nat k :: rat)\<rfloor> = int k"
    by (metis floor_of_nat)
  then show ?thesis
    by (simp add: int_of_float_def)
qed

section \<open>Plain texts\<close>

text \<open>
  The price filters look at the tables only through the characters of the price text and
  through its lowering: on a plain text they decide as under the tables of ASCII.
\<close>

lemma digits_value_cong:
  assumes "\<forall>c\<in>set ds. decimal u c = decimal v c"
  shows "digits_value u ds = digits_value v ds"
proof -
  have "foldl (\<lambda>a c. 10 * a + digit_of u c) n ds = foldl (\<lambda>a c. 10 * a + digit_of v c) n ds"
    for n
    using assms by (induction ds arbitrary: n) (simp_all add: digit_of_def)
  then show ?thesis
    by (simp add: digits_value_def)
qed

lemma py_float_cong:
  assumes "\<forall>c\<in>set s. decimal u c = decimal v c"
  shows "py_float u s = py_float v s"
proof -
  have dig: "is_digit u c = is_digit v c" if "c \<in> set s" for c
    using assms that by (simp add: is_digit_def)
  have t: "takeWhile (is_digit u) s = takeWhile (is_digit v) s"
    by (rule takeWhile_cong) (simp_all add: dig)
  have d: "dropWhile (is_digit u) s = dropWhile (is_digit v) s"
    by (rule dropWhile_cong) (simp_all add: dig)
  have ip: "digits_value u (takeWhile (is_digit v) s) = digits_value v (takeWhile (is_digit v) s)"
    by (rule digits_value_cong) (use assms in \<open>auto dest: set_takeWhileD\<close>)
  show ?thesis
  proof (cases "dropWhile (is_digit v) s")
    case Nil
    show ?thesis
      unfolding py_float_def Let_def t d Nil by (simp add: ip)
  next
    case (Cons c fp)
    then have sub: "set fp \<subseteq> set s"
      by (metis set_dropWhileD list.set_intros(2) subsetI)
    then have fp1: "list_all (is_digit u) fp = list_all (is_digit v) fp"
      using dig by (auto simp add: list_all_iff)
    have fp2: "digits_value u fp = digits_value v fp"
      by (rule digits_value_cong) (use assms sub in auto)
    show ?thesis
      unfolding py_float_def Let_def t d Cons by (simp add: ip fp1 fp2)
  qed
qed

lemma plain_ascii: "plain ascii_unicode s"
  by (simp add: plain_def ascii_unicode_def list_all_iff)

lemma deal_price_filter_plain:
  assumes "plain u price_text"
  shows "deal_price_filter u lo hi price_text = deal_price_filter ascii_unicode lo hi price_text"
proof -
  from assms have dec: "\<forall>c\<in>set price_text. decimal u c = decimal ascii_unicode c"
    and low: "lower u price_text = lower ascii_unicode price_text"
    by (simp_all add: plain_def ascii_unicode_def list_all_iff)
  have num: "filter (numeric_char u) price_text = filter (numeric_char ascii_unicode) price_text"
    by (rule filter_cong) (use dec in \<open>simp_all add: numeric_char_def is_digit_def\<close>)
  have pf: "py_float u (filter (numeric_char ascii_unicode) price_text)
          = py_float ascii_unicode (filter (numeric_char ascii_unicode) price_text)"
    by (rule py_float_cong) (use dec in auto)
  show ?thesis
    unfolding deal_price_filter_def Let_def num low pf by (rule refl)
qed

lemma hotel_price_filter_plain:
  assumes "plain u price_text"
  shows "hotel_price_filter u m lo hi price_text
           = hotel_price_filter ascii_unicode m lo hi price_text"
proof -
  from assms have dec: "\<forall>c\<in>set price_text. decimal u c = decimal ascii_unicode c"
    by (simp add: plain_def ascii_unicode_def list_all_iff)
  have num: "filter (is_digit u) price_text = filter (is_digit ascii_unicode) price_text"
    by (rule filter_cong) (use dec in \<open>simp_all add: is_digit_def\<close>)
  have "is_digit u c = is_digit ascii_unicode c" if "c \<in> set price_text" for c
    using dec that by (simp add: is_digit_def)
  then have all: "list_all (is_digit u) ds = list_all (is_digit ascii_unicode) ds"
    if "set ds \<subseteq> set price_text" for ds
    using that unfolding list_all_iff by blast
  have val: "digits_value u ds = digits_value ascii_unicode ds"
    if "set ds \<subseteq> set price_text" for ds
    by (rule digits_value_cong) (use dec that in auto)
  have pi: "py_int u m (filter (is_digit ascii_unicode) price_text)
          = py_int ascii_unicode m (filter (is_digit ascii_unicode) price_text)"
    by (simp add: py_int_def all val)
  show ?thesis
    unfolding hotel_price_filter_def Let_def num pi by (rule refl)
qed

text \<open>The facts that evaluate texts and the price filter under the tables of ASCII.\<close>

lemma ascii_tables:
  "decimal ascii_unicode c = ascii_decimal c"
  "lower ascii_unicode s = map lower_cp s"
  by (simp_all add: ascii_unicode_def)

lemmas text_eval = str_def is_digit_def numeric_char_def ascii_tables ascii_decimal_def
  lower_cp_def digits_value_def digit_of_def

lemmas price_eval = deal_price_filter_def truthy_def py_float_def float_mul_def
  int_of_float_def round_double_numeral round_double_one text_eval

section \<open>Properties of the price filters\<close>

text \<open>
  C3. With \<open>min_price = 1000\<close> and \<open>max_price = 5000\<close> the deal tracker's price filter
  rejects a candidate priced "(rupee sign)3 Lakh": 3 times 100000 is above 5000. With
  \<open>min_price = 100000\<close> and \<open>max_price = 500000\<close> it admits the same candidate. This is so
  under all tables for which the text is plain, as it is for every interpreter: its only
  decimal digit is the 3, and lowering it gives "(rupee sign)3 lakh".
\<close>

theorem lakh_price_example:
  assumes "plain u (8377 # str ''3 Lakh'')"
  shows "deal_price_filter u (Some 1000) (Some 5000) (8377 # str ''3 Lakh'') = Inr False \<and>
         deal_price_filter u (Some 100000) (Some 500000) (8377 # str ''3 Lakh'') = Inr True"
  unfolding deal_price_filter_plain [OF assms] by (simp add: price_eval)

theorem lakh_price_example_witness:
  "plain ascii_unicode (8377 # str ''3 Lakh'') \<and>
   lower ascii_unicode (8377 # str ''3 Lakh'') = 8377 # str ''3 lakh'' \<and>
   deal_price_filter ascii_unicode (Some 1000) (Some 5000) (8377 # str ''3 Lakh'')
     = Inr False \<and>
   deal_price_filter ascii_unicode (Some 100000) (Some 500000) (8377 # str ''3 Lakh'')
     = Inr True"
  using lakh_price_example [OF plain_ascii]
  by (simp add: plain_ascii text_eval)








text \<open>
  Where the digits and dots of the price text are digits only and spell a whole number
  \<open>n\<close> with \<open>n * 100000\<close> below \<open>2 ^ 53\<close>, no rounding occurs: the value compared is \<open>n\<close>,
  multiplied by 100000 exactly when "lakh" occurs in the lowered price text.
\<close>

lemma whole_number_price_value:
  assumes "truthy lo \<or> truthy hi"
    and "filter (numeric_char u) price_text \<noteq> []"
    and "list_all (is_digit u) (filter (numeric_char u) price_text)"
    and "digits_value u (filter (numeric_char u) price_text) * 100000 < 2 ^ 53"
  shows "deal_price_filter u lo hi price_text =
     (let v = int (digits_value u (filter (numeric_char u) price_text)) *
              (if py_in (str ''lakh'') (lower u price_text) then 100000 else 1)
      in Inr (\<not> (truthy lo \<and> v < the lo) \<and> \<not> (truthy hi \<and> the hi < v)))"
proof -
  define n where "n = digits_value u (filter (numeric_char u) price_text)"
  have big: "n * 100000 < 2 ^ 53"
    using assms(4) by (simp add: n_def)
  then have small: "n < 2 ^ 53"
    by simp
  have f: "py_float u (filter (numeric_char u) price_text) = Inr (Finite (of_nat n))"
    using py_float_digits [OF assms(2,3)] round_double_of_nat [OF small] by (simp add: n_def)
  have "(of_nat n :: rat) * of_nat 100000 = of_nat (n * 100000)"
    by simp
  then have m: "float_mul (Finite (of_nat n)) 100000 = Finite (of_nat (n * 100000))"
    using round_double_of_nat [OF big] by (simp add: float_mul_def)
  show ?thesis
  proof (cases "py_in (str ''lakh'') (lower u price_text)")
    case True
    have "int_of_float (float_mul (Finite (of_nat n)) 100000) = Inr (int n * 100000)"
      unfolding m int_of_float_of_nat by simp
    with True assms(1,2) show ?thesis
      by (auto simp add: deal_price_filter_def f Let_def n_def [symmetric])
  next
    case False
    with assms(1,2) show ?thesis
      by (auto simp add: deal_price_filter_def f Let_def n_def [symmetric] int_of_float_of_nat)
  qed
qed

text \<open>A price text with no digit and no dot, the empty one among them, is admitted.\<close>

lemma no_numeric_char_admitted:
  "filter (numeric_char u) price_text = []
     \<Longrightarrow> deal_price_filter u lo hi price_text = Inr True"
  by (simp add: deal_price_filter_def)

lemma empty_price_admitted: "deal_price_filter u lo hi [] = Inr True"
  by (simp add: deal_price_filter_def)

text \<open>
  C9. A price bound of 0 counts as absent, in the deal tracker's filter and in the hotel
  tracker's: with \<open>min_price = 0\<close> the filter decides as it does with no \<open>min_price\<close>, so
  the lower bound rejects no candidate; and when each bound is 0 or \<open>None\<close> the filter is
  skipped and every candidate passes, whatever its price text.
\<close>

theorem zero_bound_is_absent:
  "deal_price_filter u (Some 0) hi price_text = deal_price_filter u None hi price_text \<and>
   hotel_price_filter u m (Some 0) hi price_text = hotel_price_filter u m None hi price_text \<and>
   deal_price_filter u None None price_text = Inr True \<and>
   deal_price_filter u (Some 0) (Some 0) price_text = Inr True \<and>
   deal_price_filter u None (Some 0) price_text = Inr True \<and>
   deal_price_filter u (Some 0) None price_text = Inr True \<and>
   hotel_price_filter u m None None price_text = Inr True \<and>
   hotel_price_filter u m (Some 0) (Some 0) price_text = Inr True \<and>
   hotel_price_filter u m None (Some 0) price_text = Inr True \<and>
   hotel_price_filter u m (Some 0) None price_text = Inr True"
  by (simp_all add: deal_price_filter_def hotel_price_filter_def truthy_def Let_def
      split: option.splits sum.splits)

section \<open>The loops of \<open>check_tracker\<close>\<close>

text \<open>A check only appends to the table, and what it appends is \<open>new_listings\<close>.\<close>

lemma scan_items_appends:
  "scan_items u tracker p raw (table, new) = Inr (table', new')
     \<Longrightarrow> \<exists>added. table' = table @ added \<and> new' = new @ added"
proof (induction raw arbitrary: table new)
  case Nil
  then show ?case by simp
next
  case (Cons item raw)
  show ?case
  proof (cases "scan_items u tracker p raw (table, new) = Inr (table', new')")
    case True
    then show ?thesis by (rule Cons.IH)
  next
    case False
    define listing where
      "listing = make_listing tracker p item (py_strip (item_get item (str ''url'') []))"
    from False Cons.prems
    have "scan_items u tracker p raw (table @ [listing], new @ [listing]) = Inr (table', new')"
      by (auto simp add: Let_def listing_def split: if_splits sum.splits)
    from Cons.IH [OF this] show ?thesis by auto
  qed
qed

lemma scan_platforms_appends:
  "scan_platforms w tracker c ps (table, new) = Inr (table', new')
     \<Longrightarrow> \<exists>added. table' = table @ added \<and> new' = new @ added"
proof (induction ps arbitrary: table new)
  case Nil
  then show ?case by simp
next
  case (Cons p ps)
  show ?case
  proof (cases "scrape w tracker c p")
    case None
    with Cons.prems have "scan_platforms w tracker c ps (table, new) = Inr (table', new')"
      by simp
    then show ?thesis by (rule Cons.IH)
  next
    case (Some r)
    with Cons.prems obtain raw t1 n1 where
      a: "scan_items (tables w) tracker p raw (table, new) = Inr (t1, n1)" and
      b: "scan_platforms w tracker c ps (t1, n1) = Inr (table', new')"
      by (auto split: sum.splits)
    from scan_items_appends [OF a] Cons.IH [OF b] show ?thesis by auto
  qed
qed

lemma check_tracker_appends:
  assumes "check_tracker w now tracker d = Inr (new, d')"
  shows "deal_listings d' = deal_listings d @ new"
proof -
  from assms obtain table where
    s: "scan_platforms w tracker
          (lower (tables w) (py_strip (case city tracker of None \<Rightarrow> str ''Mumbai''
             | Some c \<Rightarrow> if c = [] then str ''Mumbai'' else c)))
          (case platforms tracker of None \<Rightarrow> [str ''serpapi''] | Some ps \<Rightarrow> ps)
          (deal_listings d, []) = Inr (table, new)"
    and d': "deal_listings d' = table"
    by (auto simp add: check_tracker_def Let_def split: sum.splits if_splits)
  from scan_platforms_appends [OF s] d' show ?thesis by auto
qed

lemma check_all_loop_appends:
  "\<exists>added. deal_listings (fst (check_all_loop w clock ts d n)) = deal_listings d @ added"
proof (induction ts arbitrary: d n)
  case Nil
  show ?case by simp
next
  case (Cons t ts)
  show ?case
  proof (cases "check_tracker w (clock (id_t t)) t d")
    case (Inl e)
    then show ?thesis by simp
  next
    case (Inr r)
    obtain new d' where r: "r = (new, d')" by (cases r)
    from Inr r have "deal_listings d' = deal_listings d @ new"
      using check_tracker_appends by blast
    moreover from Cons.IH [of d' "n + length new"] obtain added where
      "deal_listings (fst (check_all_loop w clock ts d' (n + length new)))
         = deal_listings d' @ added" by blast
    ultimately show ?thesis using Inr r by simp
  qed
qed

text \<open>Adapters that return nothing leave the commit as the only step of a check.\<close>

lemma scan_platforms_no_items:
  assumes "\<And>p r. scrape w tracker c p = Some r \<Longrightarrow> r = Inr []"
  shows "scan_platforms w tracker c ps acc = Inr acc"
proof (induction ps)
  case Nil
  show ?case by simp
next
  case (Cons p ps)
  show ?case
  proof (cases "scrape w tracker c p")
    case None
    with Cons show ?thesis by simp
  next
    case (Some r)
    with assms have "r = Inr []" by blast
    with Some Cons show ?thesis by simp
  qed
qed

lemma scrape_when_requests_raise:
  assumes "\<And>q c k. get_cardekho w q c k = Raises"
    and "\<And>q c. get_olx w q c = Raises"
    and "\<And>q c k. get_quikr w q c k = Raises"
    and "\<And>sq. get_serpapi w sq = Raises"
    and "scrape w tracker c p = Some r"
  shows "r = Inr []"
  using assms
  by (auto simp add: scrape_def scrape_serpapi_def serpapi_query_def scrape_cardekho_def
      scrape_olx_def scrape_quikr_def Let_def split: if_splits)

lemma check_tracker_no_items:
  assumes "\<And>c p r. scrape w tracker c p = Some r \<Longrightarrow> r = Inr []"
  shows "check_tracker w now tracker d =
           (if commit_raises w (id_t tracker) then Inl StoreError
            else Inr ([], \<lparr> deal_trackers = map (touch now (id_t tracker)) (deal_trackers d),
                             deal_listings = deal_listings d \<rparr>))"
proof -
  have "scan_platforms w tracker c ps acc = Inr acc" for c ps acc
    using scan_platforms_no_items [of w tracker c] assms by blast
  then show ?thesis
    by (simp add: check_tracker_def Let_def)
qed

lemma offline_scrape:
  "scrape (offline_world u failing) tracker c p = Some r \<Longrightarrow> r = Inr []"
  by (rule scrape_when_requests_raise [of "offline_world u failing"])
    (simp_all add: offline_world_def)

lemma check_offline:
  "check_tracker (offline_world u failing) now tracker d =
     (if failing (id_t tracker) then Inl StoreError
      else Inr ([], \<lparr> deal_trackers = map (touch now (id_t tracker)) (deal_trackers d),
                       deal_listings = deal_listings d \<rparr>))"
proof -
  have "commit_raises (offline_world u failing) = failing"
    by (simp add: offline_world_def)
  with check_tracker_no_items [of "offline_world u failing" tracker now d] offline_scrape
  show ?thesis by metis
qed

lemma example_tracker_fields:
  "id_t (example_tracker n ps checked) = n"
  "platforms (example_tracker n ps checked) = Some ps"
  "city (example_tracker n ps checked) = Some (str ''Mumbai'')"
  "min_price (example_tracker n ps checked) = None"
  "max_price (example_tracker n ps checked) = None"
  "is_active (example_tracker n ps checked) = True"
  "last_checked (example_tracker n ps checked) = checked"
  by (simp_all add: example_tracker_def)

lemma touch_example:
  "touch now n (example_tracker k ps checked) =
     (if k = n then example_tracker k ps (Some now) else example_tracker k ps checked)"
  by (simp add: touch_def example_tracker_def)

section \<open>Failing requests\<close>

text \<open>
  C6. If every request of every adapter raises, and the commit does not, the check of a
  tracker returns without an exception, with no new listing: the listings of the store are
  as before, and \<open>last_checked\<close> of the tracker is the clock reading of the check.
\<close>

theorem check_completes_when_requests_raise:
  assumes "\<And>q c k. get_cardekho w q c k = Raises"
    and "\<And>q c. get_olx w q c = Raises"
    and "\<And>q c k. get_quikr w q c k = Raises"
    and "\<And>sq. get_serpapi w sq = Raises"
    and "\<not> commit_raises w (id_t tracker)"
  shows "check_tracker w now tracker d =
           Inr ([], \<lparr> deal_trackers = map (touch now (id_t tracker)) (deal_trackers d),
                      deal_listings = deal_listings d \<rparr>) \<and>
         last_checked (touch now (id_t tracker) tracker) = Some now"
proof -
  have "r = Inr []" if "scrape w tracker c p = Some r" for c p r
    using scrape_when_requests_raise [OF assms(1-4) that] .
  from check_tracker_no_items [of w tracker now d, OF this] assms(5) show ?thesis
    by (simp add: touch_def)
qed

theorem check_completes_when_requests_raise_witness:
  "check_tracker (offline_world ascii_unicode (\<lambda>n. False)) 7
     (example_tracker 1 [str ''olx'', str ''serpapi'', str ''quikr'', str ''cardekho''] None)
     \<lparr> deal_trackers =
         [example_tracker 1 [str ''olx'', str ''serpapi'', str ''quikr'', str ''cardekho''] None],
       deal_listings = [] \<rparr>
   = Inr ([], \<lparr> deal_trackers =
                  [example_tracker 1 [str ''olx'', str ''serpapi'', str ''quikr'', str ''cardekho'']
                     (Some 7)],
                deal_listings = [] \<rparr>)"
  using check_completes_when_requests_raise
    [of "offline_world ascii_unicode (\<lambda>n. False)"
        "example_tracker 1 [str ''olx'', str ''serpapi'', str ''quikr'', str ''cardekho''] None" 7
        "\<lparr> deal_trackers =
            [example_tracker 1 [str ''olx'', str ''serpapi'', str ''quikr'', str ''cardekho''] None],
           deal_listings = [] \<rparr>"]
  by (simp add: offline_world_def touch_def example_tracker_def)

section \<open>Viewed listings\<close>

lemma step_keeps_viewed:
  assumes "i < length (deal_listings d)" and "\<not> is_new (deal_listings d ! i)"
  shows "i < length (deal_listings (step operation d)) \<and>
         deal_listings (step operation d) ! i = deal_listings d ! i"
proof (cases operation)
  case (Check w now tracker)
  show ?thesis
  proof (cases "check_tracker w now tracker d")
    case (Inl e)
    with Check assms show ?thesis by simp
  next
    case (Inr r)
    obtain new d' where r: "r = (new, d')" by (cases r)
    from Inr r have "deal_listings d' = deal_listings d @ new"
      using check_tracker_appends by blast
    with Check Inr r assms show ?thesis by (simp add: nth_append)
  qed
next
  case (CheckAll w clock)
  from check_all_loop_appends obtain added where
    "deal_listings (fst (check_all w clock d)) = deal_listings d @ added"
    unfolding check_all_def by blast
  with CheckAll assms show ?thesis by (simp add: nth_append)
next
  case (View tid)
  with assms show ?thesis
    by (simp add: results_def mark_viewed_def)
qed

lemma run_keeps_viewed:
  "i < length (deal_listings d) \<Longrightarrow> \<not> is_new (deal_listings d ! i)
     \<Longrightarrow> i < length (deal_listings (run ops d)) \<and>
         deal_listings (run ops d) ! i = deal_listings d ! i"
proof (induction ops arbitrary: d)
  case Nil
  then show ?case by (simp add: run_def)
next
  case (Cons operation ops)
  from step_keeps_viewed [OF Cons.prems, of operation]
  have a: "i < length (deal_listings (step operation d))"
    and b: "deal_listings (step operation d) ! i = deal_listings d ! i"
    by simp_all
  from b Cons.prems(2) have c: "\<not> is_new (deal_listings (step operation d) ! i)"
    by simp
  from Cons.IH [OF a c] b show ?case
    by (simp add: run_def)
qed

lemma results_idem: "results tid (results tid d) = results tid d"
  by (simp add: results_def mark_viewed_def comp_def cong: map_cong)

text \<open>
  C8. A listing that is viewed (\<open>is_new\<close> is false) stays as it is under every sequence of
  checks, sweeps and views: no operation sets \<open>is_new\<close> back to true. Viewing the results of
  a tracker a second time changes nothing.
\<close>

theorem viewed_is_final:
  assumes "i < length (deal_listings d)" and "\<not> is_new (deal_listings d ! i)"
  shows "i < length (deal_listings (run ops d)) \<and>
         deal_listings (run ops d) ! i = deal_listings d ! i \<and>
         results tid (results tid d) = results tid d"
  using run_keeps_viewed [OF assms] results_idem by simp

theorem viewed_is_final_witness:
  "\<not> is_new (long_listing\<lparr>is_new := False\<rparr>) \<and>
   deal_listings
     (run [View 1,
           Check (olx_world ascii_unicode [long_item] (\<lambda>n. False)) 3 (example_tracker 1 [str ''olx''] None),
           CheckAll (offline_world ascii_unicode (\<lambda>n. False)) (\<lambda>n. 4),
           View 1]
        \<lparr> deal_trackers = [example_tracker 1 [str ''olx''] None],
          deal_listings = [long_listing\<lparr>is_new := False\<rparr>] \<rparr>) ! 0
     = long_listing\<lparr>is_new := False\<rparr>"
  using viewed_is_final
    [of 0 "\<lparr> deal_trackers = [example_tracker 1 [str ''olx''] None],
             deal_listings = [long_listing\<lparr>is_new := False\<rparr>] \<rparr>"
        "[View 1,
          Check (olx_world ascii_unicode [long_item] (\<lambda>n. False)) 3 (example_tracker 1 [str ''olx''] None),
          CheckAll (offline_world ascii_unicode (\<lambda>n. False)) (\<lambda>n. 4),
          View 1]" 1]
  by simp

section \<open>One listing for each URL\<close>

text \<open>
  While the stripped URLs of the items fit the column, a check keeps the URLs of each
  tracker's listings distinct, and a second check with the same adapter results adds
  nothing.
\<close>

lemma listing_exists_iff:
  "listing_exists table tid u \<longleftrightarrow> u \<in> set (map url (filter (\<lambda>l. tracker_id l = tid) table))"
  by (auto simp add: listing_exists_def list_ex_iff)

lemma scan_items_distinct:
  assumes "\<forall>item\<in>set raw. short_url item"
    and "distinct (map url (filter (\<lambda>l. tracker_id l = tid) table))"
    and "scan_items u tracker p raw (table, new) = Inr (table', new')"
  shows "distinct (map url (filter (\<lambda>l. tracker_id l = tid) table'))"
  using assms
proof (induction raw arbitrary: table new)
  case Nil
  then show ?case by simp
next
  case (Cons item raw)
  from Cons.prems(1) have short: "\<forall>item\<in>set raw. short_url item" by simp
  show ?case
  proof (cases "scan_items u tracker p raw (table, new) = Inr (table', new')")
    case True
    from Cons.IH [OF short Cons.prems(2) True] show ?thesis .
  next
    case False
    define iu where "iu = py_strip (item_get item (str ''url'') [])"
    define listing where "listing = make_listing tracker p item iu"
    from False Cons.prems(3)
    have new_row: "\<not> listing_exists table (id_t tracker) iu"
      and rest: "scan_items u tracker p raw (table @ [listing], new @ [listing]) = Inr (table', new')"
      by (auto simp add: Let_def listing_def iu_def split: if_splits sum.splits)
    from Cons.prems(1) have "length iu \<le> 1000"
      by (simp add: short_url_def iu_def)
    then have lu: "url listing = iu" and lt: "tracker_id listing = id_t tracker"
      by (simp_all add: listing_def make_listing_def)
    have "distinct (map url (filter (\<lambda>l. tracker_id l = tid) (table @ [listing])))"
      using Cons.prems(2) new_row lu lt by (auto simp add: listing_exists_iff)
    from Cons.IH [OF short this rest] show ?thesis .
  qed
qed

lemma scan_platforms_distinct:
  assumes "\<And>p raw item. scrape w tracker c p = Some (Inr raw) \<Longrightarrow> item \<in> set raw
             \<Longrightarrow> short_url item"
    and "distinct (map url (filter (\<lambda>l. tracker_id l = tid) table))"
    and "scan_platforms w tracker c ps (table, new) = Inr (table', new')"
  shows "distinct (map url (filter (\<lambda>l. tracker_id l = tid) table'))"
  using assms(2,3)
proof (induction ps arbitrary: table new)
  case Nil
  then show ?case by simp
next
  case (Cons p ps)
  show ?case
  proof (cases "scrape w tracker c p")
    case None
    with Cons.prems(2) have "scan_platforms w tracker c ps (table, new) = Inr (table', new')"
      by simp
    from Cons.IH [OF Cons.prems(1) this] show ?thesis .
  next
    case (Some r)
    with Cons.prems(2) obtain raw t1 n1 where
      r: "r = Inr raw" and
      a: "scan_items (tables w) tracker p raw (table, new) = Inr (t1, n1)" and
      b: "scan_platforms w tracker c ps (t1, n1) = Inr (table', new')"
      by (auto split: sum.splits)
    have "\<forall>item\<in>set raw. short_url item"
      using assms(1) Some r by blast
    from scan_items_distinct [OF this Cons.prems(1) a]
    have "distinct (map url (filter (\<lambda>l. tracker_id l = tid) t1))" .
    from Cons.IH [OF this b] show ?thesis .
  qed
qed

lemma short_urls_stay_distinct:
  assumes "\<And>c p raw item. scrape w tracker c p = Some (Inr raw) \<Longrightarrow> item \<in> set raw
             \<Longrightarrow> short_url item"
    and "distinct (map url (filter (\<lambda>l. tracker_id l = tid) (deal_listings d)))"
    and "check_tracker w now tracker d = Inr (new, d')"
  shows "distinct (map url (filter (\<lambda>l. tracker_id l = tid) (deal_listings d')))"
proof -
  define c where "c = lower (tables w) (py_strip (case city tracker of None \<Rightarrow> str ''Mumbai''
             | Some c \<Rightarrow> if c = [] then str ''Mumbai'' else c))"
  define ps where "ps = (case platforms tracker of None \<Rightarrow> [str ''serpapi''] | Some ps \<Rightarrow> ps)"
  from assms(3) have
    s: "scan_platforms w tracker c ps (deal_listings d, []) = Inr (deal_listings d', new)"
    by (auto simp add: check_tracker_def Let_def c_def ps_def split: sum.splits if_splits)
  show ?thesis
    using scan_platforms_distinct [OF assms(1) assms(2) s] .
qed

lemma listing_exists_append:
  "listing_exists table tid u \<Longrightarrow> listing_exists (table @ added) tid u"
  by (auto simp add: listing_exists_def list_ex_iff)

lemma settled_append: "settled u tracker table item \<Longrightarrow> settled u tracker (table @ added) item"
  by (auto simp add: settled_def Let_def listing_exists_append)

lemma scan_items_settles:
  assumes "\<forall>item\<in>set raw. short_url item"
    and "scan_items u tracker p raw (table, new) = Inr (table', new')"
  shows "\<forall>item\<in>set raw. settled u tracker table' item"
  using assms
proof (induction raw arbitrary: table new)
  case Nil
  then show ?case by simp
next
  case (Cons item raw)
  from Cons.prems(1) have short: "\<forall>item\<in>set raw. short_url item" by simp
  define iu where "iu = py_strip (item_get item (str ''url'') [])"
  define listing where "listing = make_listing tracker p item iu"
  show ?case
  proof (cases "scan_items u tracker p raw (table, new) = Inr (table', new')")
    case True
    from Cons.IH [OF short True] have tail: "\<forall>item\<in>set raw. settled u tracker table' item" .
    from scan_items_appends [OF True] obtain added where t': "table' = table @ added"
      by blast
    show ?thesis
    proof (cases "settled u tracker table item")
      case True
      then show ?thesis using tail t' settled_append by simp
    next
      case False
      with Cons.prems(2) True
      have rest: "scan_items u tracker p raw (table @ [listing], new @ [listing]) = Inr (table', new')"
        by (auto simp add: settled_def Let_def listing_def iu_def split: if_splits sum.splits)
      from Cons.prems(1) have "length iu \<le> 1000"
        by (simp add: short_url_def iu_def)
      then have "url listing = iu" and "tracker_id listing = id_t tracker"
        by (simp_all add: listing_def make_listing_def)
      then have "listing_exists (table @ [listing]) (id_t tracker) iu"
        by (simp add: listing_exists_def)
      then have "listing_exists ((table @ [listing]) @ added') (id_t tracker) iu" for added'
        by (rule listing_exists_append)
      moreover from scan_items_appends [OF rest] obtain added' where
        "table' = (table @ [listing]) @ added'" by blast
      ultimately have "listing_exists table' (id_t tracker) iu"
        by (simp only:)
      then have "settled u tracker table' item"
        by (simp add: settled_def Let_def iu_def)
      with tail show ?thesis by simp
    qed
  next
    case False
    with Cons.prems(2)
    have rest: "scan_items u tracker p raw (table @ [listing], new @ [listing]) = Inr (table', new')"
      by (auto simp add: Let_def listing_def iu_def split: if_splits sum.splits)
    from Cons.IH [OF short rest] have tail: "\<forall>item\<in>set raw. settled u tracker table' item" .
    from Cons.prems(1) have "length iu \<le> 1000"
      by (simp add: short_url_def iu_def)
    then have "url listing = iu" and "tracker_id listing = id_t tracker"
      by (simp_all add: listing_def make_listing_def)
    then have "listing_exists (table @ [listing]) (id_t tracker) iu"
      by (simp add: listing_exists_def)
    then have "listing_exists ((table @ [listing]) @ added') (id_t tracker) iu" for added'
      by (rule listing_exists_append)
    moreover from scan_items_appends [OF rest] obtain added' where
      "table' = (table @ [listing]) @ added'" by blast
    ultimately have "listing_exists table' (id_t tracker) iu"
      by (simp only:)
    then have "settled u tracker table' item"
      by (simp add: settled_def Let_def iu_def)
    with tail show ?thesis by simp
  qed
qed

lemma scan_items_settled:
  "\<forall>item\<in>set raw. settled u tracker table item
     \<Longrightarrow> scan_items u tracker p raw (table, new) = Inr (table, new)"
  by (induction raw) (auto simp add: settled_def Let_def)

lemma scan_platforms_settles:
  assumes "\<And>p raw item. scrape w tracker c p = Some (Inr raw) \<Longrightarrow> item \<in> set raw
             \<Longrightarrow> short_url item"
    and "scan_platforms w tracker c ps (table, new) = Inr (table', new')"
    and "p \<in> set ps" and "scrape w tracker c p = Some (Inr raw)" and "item \<in> set raw"
  shows "settled (tables w) tracker table' item"
  using assms(2,3)
proof (induction ps arbitrary: table new)
  case Nil
  then show ?case by simp
next
  case (Cons q ps)
  show ?case
  proof (cases "scrape w tracker c q")
    case None
    with Cons.prems(1) have s: "scan_platforms w tracker c ps (table, new) = Inr (table', new')"
      by simp
    from None assms(4) Cons.prems(2) have "p \<in> set ps" by auto
    from Cons.IH [OF s this] show ?thesis .
  next
    case (Some r)
    with Cons.prems(1) obtain raw' t1 n1 where
      r: "r = Inr raw'" and
      a: "scan_items (tables w) tracker q raw' (table, new) = Inr (t1, n1)" and
      b: "scan_platforms w tracker c ps (t1, n1) = Inr (table', new')"
      by (auto split: sum.splits)
    show ?thesis
    proof (cases "p \<in> set ps")
      case True
      from Cons.IH [OF b True] show ?thesis .
    next
      case False
      with Cons.prems(2) have "p = q" by simp
      with Some r assms(4) have "raw' = raw" by simp
      have "\<forall>item\<in>set raw'. short_url item"
        using assms(1) Some r by blast
      from scan_items_settles [OF this a] \<open>raw' = raw\<close> assms(5)
      have "settled (tables w) tracker t1 item" by simp
      moreover from scan_platforms_appends [OF b] obtain added where "table' = t1 @ added"
        by blast
      ultimately show ?thesis using settled_append by simp
    qed
  qed
qed

lemma scan_platforms_settled:
  assumes "\<forall>p\<in>set ps. \<forall>r. scrape w tracker c p = Some r
       \<longrightarrow> (\<exists>raw. r = Inr raw \<and> (\<forall>item\<in>set raw. settled (tables w) tracker table item))"
  shows "scan_platforms w tracker c ps (table, new) = Inr (table, new)"
  using assms
proof (induction ps)
  case Nil
  show ?case by simp
next
  case (Cons q ps)
  then have tail: "scan_platforms w tracker c ps (table, new) = Inr (table, new)"
    by simp
  show ?case
  proof (cases "scrape w tracker c q")
    case None
    with tail show ?thesis by simp
  next
    case (Some r)
    then obtain raw where r: "r = Inr raw"
      and "\<forall>item\<in>set raw. settled (tables w) tracker table item"
      using Cons.prems by auto
    from scan_items_settled [OF this(2)] Some r tail show ?thesis by simp
  qed
qed

lemma scan_platforms_no_raise:
  "scan_platforms w tracker c ps acc = Inr acc' \<Longrightarrow> p \<in> set ps
     \<Longrightarrow> scrape w tracker c p \<noteq> Some (Inl e)"
proof (induction ps arbitrary: acc)
  case Nil
  then show ?case by simp
next
  case (Cons q ps)
  show ?case
  proof (cases "p = q")
    case True
    with Cons.prems(1) show ?thesis
      by (auto split: option.splits sum.splits)
  next
    case False
    with Cons.prems(2) have p: "p \<in> set ps" by simp
    from Cons.prems(1) obtain acc1 where "scan_platforms w tracker c ps acc1 = Inr acc'"
      by (auto split: option.splits sum.splits)
    from Cons.IH [OF this p] show ?thesis .
  qed
qed

lemma short_urls_second_run_empty:
  assumes "\<And>c p raw item. scrape w tracker c p = Some (Inr raw) \<Longrightarrow> item \<in> set raw
             \<Longrightarrow> short_url item"
    and "check_tracker w now tracker d = Inr (new, d')"
  shows "check_tracker w now' tracker d' =
           Inr ([], d'\<lparr>deal_trackers := map (touch now' (id_t tracker)) (deal_trackers d')\<rparr>)"
proof -
  define c where "c = lower (tables w) (py_strip (case city tracker of None \<Rightarrow> str ''Mumbai''
             | Some c \<Rightarrow> if c = [] then str ''Mumbai'' else c))"
  define ps where "ps = (case platforms tracker of None \<Rightarrow> [str ''serpapi''] | Some ps \<Rightarrow> ps)"
  from assms(2) have
    s: "scan_platforms w tracker c ps (deal_listings d, []) = Inr (deal_listings d', new)"
    and ok: "\<not> commit_raises w (id_t tracker)"
    by (auto simp add: check_tracker_def Let_def c_def ps_def split: sum.splits if_splits)
  have "\<exists>raw. r = Inr raw \<and> (\<forall>item\<in>set raw. settled (tables w) tracker (deal_listings d') item)"
    if p: "p \<in> set ps" and r: "scrape w tracker c p = Some r" for p r
  proof (cases r)
    case (Inl e)
    with scan_platforms_no_raise [OF s p, of e] r show ?thesis by simp
  next
    case (Inr raw)
    with r have "scrape w tracker c p = Some (Inr raw)" by simp
    from scan_platforms_settles [OF assms(1) s p this] Inr show ?thesis by simp
  qed
  then have "scan_platforms w tracker c ps (deal_listings d', []) = Inr (deal_listings d', [])"
    by (intro scan_platforms_settled) blast
  with ok show ?thesis
    by (simp add: check_tracker_def Let_def c_def [symmetric] ps_def [symmetric])
qed

text \<open>The check of the example tracker when OLX returns the item with the long URL.\<close>

lemma dropWhile_none: "list_all (\<lambda>c. \<not> P c) s \<Longrightarrow> dropWhile P s = s"
  by (cases s) simp_all

lemma py_strip_no_space: "list_all (\<lambda>c. \<not> is_space c) s \<Longrightarrow> py_strip s = s"
proof -
  assume a: "list_all (\<lambda>c. \<not> is_space c) s"
  then have b: "list_all (\<lambda>c. \<not> is_space c) (rev s)"
    by (simp add: list_all_iff)
  show ?thesis
    by (simp add: py_strip_def dropWhile_none [OF a] dropWhile_none [OF b])
qed

lemma long_url_facts:
  "py_strip long_url = long_url"
  "long_url \<noteq> []"
  "take 1000 long_url = replicate 1000 97"
  "replicate 1000 97 \<noteq> long_url"
  "length long_url = 1001"
proof -
  show "py_strip long_url = long_url"
    by (rule py_strip_no_space) (simp add: long_url_def list_all_iff is_space_def)
qed (simp_all add: long_url_def)

lemma long_item_fields:
  "item_get long_item (str ''url'') [] = long_url"
  "item_get long_item (str ''title'') [] = str ''iPhone 13''"
  "item_get long_item (str ''price'') [] = []"
  "item_get long_item (str ''location'') [] = []"
  "item_get long_item (str ''image_url'') [] = []"
  "item_get long_item (str ''platform_override'') d = d"
  "item_get long_item (str ''description'') [] = []"
  by (simp_all add: item_get_def long_item_def str_def long_url_def)

lemma take_title: "take 500 (str ''iPhone 13'') = str ''iPhone 13''"
  by (simp add: str_def)

lemma olx_neq: "str ''olx'' \<noteq> str ''serpapi''" "str ''olx'' \<noteq> str ''cardekho''"
  by (simp_all add: str_def)

lemma mumbai_not_empty: "str ''Mumbai'' \<noteq> []"
  by (simp add: str_def)

lemma scan_long_item:
  "scan_items u (example_tracker 1 [str ''olx''] checked) (str ''olx'') [long_item]
     (replicate k long_listing, [])
     = Inr (replicate k long_listing @ [long_listing], [long_listing])"
  by (simp add: example_tracker_fields make_listing_def listing_exists_def
      deal_price_filter_def truthy_def Let_def long_item_fields long_url_facts
      take_title long_listing_def list_ex_iff)

lemma scrape_olx_world:
  "scrape (olx_world u items failing) tracker c (str ''olx'') = Some (Inr items)"
  by (simp add: scrape_def scrape_olx_def olx_world_def olx_neq)

lemma olx_world_fields:
  "commit_raises (olx_world u items failing) = failing"
  "tables (olx_world u items failing) = u"
  by (simp_all add: olx_world_def)

lemma scan_platforms_single:
  "scan_platforms w tracker c [p] acc =
     (case scrape w tracker c p of
        None \<Rightarrow> Inr acc
      | Some (Inl e) \<Rightarrow> Inl e
      | Some (Inr raw) \<Rightarrow> scan_items (tables w) tracker p raw acc)"
  by (simp split: option.splits sum.splits)

lemma check_long_item:
  "check_tracker (olx_world u [long_item] (\<lambda>n. False)) now (example_tracker 1 [str ''olx''] checked)
     \<lparr> deal_trackers = ts, deal_listings = replicate k long_listing \<rparr>
   = Inr ([long_listing],
          \<lparr> deal_trackers = map (touch now 1) ts,
            deal_listings = replicate k long_listing @ [long_listing] \<rparr>)"
  by (simp add: check_tracker_def example_tracker_fields mumbai_not_empty scrape_olx_world
      olx_world_fields scan_platforms_single scan_long_item
      del: scan_items.simps scan_platforms.simps)

text \<open>
  C1 at an item whose URL has 1001 characters. The duplicate check compares the whole URL
  with the stored ones, and the stored URL is cut to 1000 characters: the second check of
  the tracker does not find the listing of the first and stores the item again. The
  tracker then has two listings of the same URL.
\<close>

theorem truncated_url_stored_twice:
  "\<not> short_url long_item \<and>
   run [Check (olx_world u [long_item] (\<lambda>n. False)) 1 (example_tracker 1 [str ''olx''] None),
        Check (olx_world u [long_item] (\<lambda>n. False)) 2 (example_tracker 1 [str ''olx''] (Some 1))]
     \<lparr> deal_trackers = [example_tracker 1 [str ''olx''] None], deal_listings = [] \<rparr>
   = \<lparr> deal_trackers = [example_tracker 1 [str ''olx''] (Some 2)],
       deal_listings = [long_listing, long_listing] \<rparr> \<and>
   \<not> distinct (map url (filter (\<lambda>l. tracker_id l = 1) [long_listing, long_listing]))"
  using check_long_item [of u 1 None "[example_tracker 1 [str ''olx''] None]" 0]
    check_long_item [of u 2 "Some 1" "[example_tracker 1 [str ''olx''] (Some 1)]" 1]
  by (simp add: run_def touch_example long_listing_def short_url_def long_item_fields
      long_url_facts)

text \<open>
  C2 at the same item: the adapter returns the same result in both checks, and the second
  check commits one new listing, not none.
\<close>

theorem second_run_commits_again:
  "check_tracker (olx_world u [long_item] (\<lambda>n. False)) 1 (example_tracker 1 [str ''olx''] None)
     \<lparr> deal_trackers = [example_tracker 1 [str ''olx''] None], deal_listings = [] \<rparr>
   = Inr ([long_listing],
          \<lparr> deal_trackers = [example_tracker 1 [str ''olx''] (Some 1)],
            deal_listings = [long_listing] \<rparr>) \<and>
   check_tracker (olx_world u [long_item] (\<lambda>n. False)) 2
     (example_tracker 1 [str ''olx''] (Some 1))
     \<lparr> deal_trackers = [example_tracker 1 [str ''olx''] (Some 1)],
       deal_listings = [long_listing] \<rparr>
   = Inr ([long_listing],
          \<lparr> deal_trackers = [example_tracker 1 [str ''olx''] (Some 2)],
            deal_listings = [long_listing, long_listing] \<rparr>)"
  using check_long_item [of u 1 None "[example_tracker 1 [str ''olx''] None]" 0]
    check_long_item [of u 2 "Some 1" "[example_tracker 1 [str ''olx''] (Some 1)]" 1]
  by (simp add: touch_example)

section \<open>A price without digits\<close>

lemma dot_item_fields:
  "item_get dot_item (str ''url'') [] = str ''https://x.in/1''"
  "item_get dot_item (str ''price'') [] = str ''Rs. ''"
  by (simp_all add: item_get_def dot_item_def str_def)

lemma dot_item_url: "py_strip (str ''https://x.in/1'') = str ''https://x.in/1''"
  by (rule py_strip_no_space) (simp add: str_def is_space_def)

lemma bounded_tracker_fields:
  "id_t bounded_tracker = 1"
  "platforms bounded_tracker = Some [str ''olx'']"
  "city bounded_tracker = Some (str ''Mumbai'')"
  "min_price bounded_tracker = Some 1000"
  "max_price bounded_tracker = Some 5000"
  by (simp_all add: bounded_tracker_def example_tracker_def)

lemma dot_price:
  assumes "plain u (str ''Rs. '')"
  shows "deal_price_filter u (Some 1000) (Some 5000) (str ''Rs. '') = Inl ValueError"
  unfolding deal_price_filter_plain [OF assms] by (simp add: price_eval)

lemma dot_no_digit: "plain u (str ''Rs. '') \<Longrightarrow> filter (is_digit u) (str ''Rs. '') = []"
  by (simp add: plain_def is_digit_def ascii_decimal_def str_def)

text \<open>
  C7 at a price text that holds no number: "Rs. ". With price bounds configured the
  candidate is not admitted. The only character of the text among digits and dots is the
  dot, \<open>float\<close> refuses the string "." and the \<open>ValueError\<close> leaves \<open>check_tracker\<close>, which
  commits nothing. This is so under all tables for which the text is plain, as it is for
  every interpreter: none of its characters is a decimal digit.
\<close>

theorem dot_only_price_raises:
  assumes "plain u (str ''Rs. '')"
  shows "filter (is_digit u) (str ''Rs. '') = [] \<and>
   deal_price_filter u (Some 1000) (Some 5000) (str ''Rs. '') = Inl ValueError \<and>
   check_tracker (olx_world u [dot_item] (\<lambda>n. False)) now bounded_tracker
     \<lparr> deal_trackers = [bounded_tracker], deal_listings = [] \<rparr> = Inl ValueError"
proof -
  have "str ''https://x.in/1'' \<noteq> []"
    by (simp add: str_def)
  then have "scan_items u bounded_tracker (str ''olx'') [dot_item] ([], []) = Inl ValueError"
    by (simp add: dot_item_fields dot_item_url bounded_tracker_fields dot_price [OF assms]
        listing_exists_def)
  then have "check_tracker (olx_world u [dot_item] (\<lambda>n. False)) now bounded_tracker
     \<lparr> deal_trackers = [bounded_tracker], deal_listings = [] \<rparr> = Inl ValueError"
    by (simp add: check_tracker_def bounded_tracker_fields mumbai_not_empty scrape_olx_world
        olx_world_fields scan_platforms_single del: scan_items.simps scan_platforms.simps)
  then show ?thesis
    using dot_price [OF assms] dot_no_digit [OF assms] by simp
qed

theorem dot_only_price_raises_witness:
  "plain ascii_unicode (str ''Rs. '') \<and>
   filter (is_digit ascii_unicode) (str ''Rs. '') = [] \<and>
   deal_price_filter ascii_unicode (Some 1000) (Some 5000) (str ''Rs. '') = Inl ValueError \<and>
   check_tracker (olx_world ascii_unicode [dot_item] (\<lambda>n. False)) 1 bounded_tracker
     \<lparr> deal_trackers = [bounded_tracker], deal_listings = [] \<rparr> = Inl ValueError"
  using dot_only_price_raises [OF plain_ascii, of 1] by (simp add: plain_ascii)

section \<open>The sweep\<close>

text \<open>
  C5 at two active trackers of which the first one's commit raises. The route has no
  \<open>try\<close> around \<open>check_tracker\<close>: the exception ends the sweep, and the second tracker is
  not checked (its \<open>last_checked\<close> stays empty). Where no commit raises, the sweep checks
  both.
\<close>

theorem check_all_stops_at_store_error:
  "check_all (offline_world u (\<lambda>n. n = 1)) clock
     \<lparr> deal_trackers = [example_tracker 1 ps None, example_tracker 2 ps None],
       deal_listings = table \<rparr>
   = (\<lparr> deal_trackers = [example_tracker 1 ps None, example_tracker 2 ps None],
        deal_listings = table \<rparr>, Inl StoreError) \<and>
   check_all (offline_world u (\<lambda>n. False)) clock
     \<lparr> deal_trackers = [example_tracker 1 ps None, example_tracker 2 ps None],
       deal_listings = table \<rparr>
   = (\<lparr> deal_trackers =
          [example_tracker 1 ps (Some (clock 1)), example_tracker 2 ps (Some (clock 2))],
        deal_listings = table \<rparr>, Inr 0)"
  by (simp add: check_all_def check_offline example_tracker_fields touch_example)

section \<open>Scores of leads\<close>

lemma keyword_loop_sum:
  "keyword_loop kws low (sc, matched) =
     (sc + (\<Sum>(kw, pts)\<leftarrow>kws. if py_in kw low then pts else 0),
      matched @ map fst (filter (\<lambda>(kw, pts). py_in kw low) kws))"
  by (induction kws arbitrary: sc matched) (auto)

lemma py_in_iff: "py_in sub t \<longleftrightarrow> (\<exists>i\<le>length t. take (length sub) (drop i t) = sub)"
proof (induction t)
  case Nil
  show ?case by auto
next
  case (Cons c cs)
  have "(\<exists>i\<le>length (c # cs). take (length sub) (drop i (c # cs)) = sub) \<longleftrightarrow>
        take (length sub) (c # cs) = sub \<or> (\<exists>i\<le>length cs. take (length sub) (drop i cs) = sub)"
  proof
    assume "\<exists>i\<le>length (c # cs). take (length sub) (drop i (c # cs)) = sub"
    then obtain i where i: "i \<le> length (c # cs)" "take (length sub) (drop i (c # cs)) = sub"
      by blast
    show "take (length sub) (c # cs) = sub \<or> (\<exists>i\<le>length cs. take (length sub) (drop i cs) = sub)"
    proof (cases i)
      case 0
      with i show ?thesis by simp
    next
      case (Suc j)
      with i have "j \<le> length cs" "take (length sub) (drop j cs) = sub" by simp_all
      then show ?thesis by blast
    qed
  next
    assume "take (length sub) (c # cs) = sub \<or> (\<exists>i\<le>length cs. take (length sub) (drop i cs) = sub)"
    then show "\<exists>i\<le>length (c # cs). take (length sub) (drop i (c # cs)) = sub"
    proof
      assume "take (length sub) (c # cs) = sub"
      then have "0 \<le> length (c # cs) \<and> take (length sub) (drop 0 (c # cs)) = sub" by simp
      then show ?thesis by blast
    next
      assume "\<exists>i\<le>length cs. take (length sub) (drop i cs) = sub"
      then obtain j where "j \<le> length cs" "take (length sub) (drop j cs) = sub" by blast
      then have "Suc j \<le> length (c # cs) \<and> take (length sub) (drop (Suc j) (c # cs)) = sub"
        by simp
      then show ?thesis by blast
    qed
  qed
  with Cons show ?case by simp
qed

lemma py_in_occurrences: "py_in sub t \<longleftrightarrow> 0 < occurrences sub t"
proof -
  have "0 < occurrences sub t \<longleftrightarrow>
        (\<exists>i\<in>set [0..<Suc (length t)]. take (length sub) (drop i t) = sub)"
    unfolding occurrences_def length_greater_0_conv filter_empty_conv by blast
  also have "\<dots> \<longleftrightarrow> (\<exists>i\<le>length t. take (length sub) (drop i t) = sub)"
    by (simp only: set_upt atLeastLessThan_iff less_Suc_eq_le Bex_def) simp
  finally show ?thesis by (simp add: py_in_iff)
qed

lemma score_make_lead:
  "score (make_lead u m c) =
     contact_points u m c +
     (\<Sum>(kw, pts)\<leftarrow>BUSINESS_KEYWORDS.
        if 0 < occurrences kw (lower u (c_text c)) then pts else 0) +
     bonus_points m c"
  by (simp add: make_lead_def keyword_loop_sum contact_points_def bonus_points_def Let_def
      py_in_occurrences)

lemma distinct_keywords: "distinct (map fst BUSINESS_KEYWORDS)"
  by (simp add: BUSINESS_KEYWORDS_def str_def)

lemma sorted_by_falling_score:
  "sorted_wrt (\<lambda>a b. score b \<le> score a) (sort_key (\<lambda>l. - score l) leads)"
proof -
  have "sorted (map (\<lambda>l. - score l) (sort_key (\<lambda>l. - score l) leads))"
    by (rule sorted_sort_key)
  then show ?thesis
    by (simp add: sorted_wrt_map)
qed

text \<open>
  C10. The leads are returned by falling score. They are the leads made of the comments
  that the keyword filter does not skip, and the score of a lead counts, beside the points
  for contact details, likes and recency, the weight of each entry of \<open>BUSINESS_KEYWORDS\<close>
  that occurs in the lowered text once, however often it occurs; no keyword is listed
  twice.
\<close>

theorem leads_sorted_and_scored:
  "sorted_wrt (\<lambda>a b. score b \<le> score a) (extract_leads_from_comments u m comments keyword_filter) \<and>
   set (extract_leads_from_comments u m comments keyword_filter) =
     make_lead u m ` {c \<in> set comments. \<not> skipped u (py_strip (lower u keyword_filter)) c} \<and>
   score (make_lead u m c) =
     contact_points u m c +
     (\<Sum>(kw, pts)\<leftarrow>BUSINESS_KEYWORDS.
        if 0 < occurrences kw (lower u (c_text c)) then pts else 0) +
     bonus_points m c \<and>
   distinct (map fst BUSINESS_KEYWORDS)"
  using sorted_by_falling_score score_make_lead distinct_keywords
  by (simp add: extract_leads_from_comments_def Let_def)

end
